theory Spec2Isabelle
  imports Complex_Main "HOL-Library.Multiset" "HOL-Library.Mapping"
begin

section \<open>Data model\<close>

text \<open>
  The retriever package declares \<^verbatim>\<open>Document\<close> and \<^verbatim>\<open>RetrievalResult\<close>, the ranker
  package declares \<^verbatim>\<open>RankedItem\<close>. The metadata of a document is a
  \<^verbatim>\<open>map[string]interface{}\<close> that no modelled function reads; it is kept as a value of an
  arbitrary type \<open>'m\<close>.

  Go's \<^verbatim>\<open>float32\<close> and \<^verbatim>\<open>float64\<close> are modelled by \<^typ>\<open>real\<close>: rounding, overflow
  to infinity and NaN are outside this development, every statement below about scores is
  a statement about exact arithmetic.
\<close>

record 'm Document =
  ID :: string
  Content :: string
  Metadata :: 'm

record 'm RetrievalResult =
  Document :: "'m Document"
  Score :: real

record RankedItem =
  ID :: string
  Score :: real

type_synonym vector = "real list"

section \<open>Cosine similarity\<close>

text \<open>
  The accumulation loop of \<^verbatim>\<open>cosineSimilarity\<close>: \<^verbatim>\<open>for i := range a\<close> adds
  \<^verbatim>\<open>a[i]*b[i]\<close>, \<^verbatim>\<open>a[i]*a[i]\<close> and \<^verbatim>\<open>b[i]*b[i]\<close> to the three accumulators. It is only
  entered when both slices have the same length, so \<open>b ! i\<close> is always in range.
\<close>

function cosineLoop :: "vector \<Rightarrow> vector \<Rightarrow> nat \<Rightarrow> real \<times> real \<times> real \<Rightarrow> real \<times> real \<times> real" where
  "cosineLoop a b i (dotProduct, normA, normB) =
     (if i < length a
      then cosineLoop a b (i + 1)
             (dotProduct + a ! i * b ! i, normA + a ! i * a ! i, normB + b ! i * b ! i)
      else (dotProduct, normA, normB))"
  by pat_completeness auto
termination
  by (relation "measure (\<lambda>(a, b, i, acc). length a - i)") auto

declare cosineLoop.simps [simp del]

definition cosineSimilarity :: "vector \<Rightarrow> vector \<Rightarrow> real" where
  "cosineSimilarity a b =
     (if length a \<noteq> length b then 0
      else case cosineLoop a b 0 (0, 0, 0) of
             (dotProduct, normA, normB) \<Rightarrow>
               if normA = 0 \<or> normB = 0 then 0
               else dotProduct / (sqrt normA * sqrt normB))"




section \<open>Errors, the embedder and the lock events\<close>

text \<open>
  A Go \<^verbatim>\<open>error\<close> is a message (\<^verbatim>\<open>fmt.Errorf\<close> without \<^verbatim>\<open>%w\<close>) or a message wrapping
  another error (\<^verbatim>\<open>fmt.Errorf("...: %w", err)\<close>). A run-time panic is kept apart as
  \<open>Panic\<close>: it is not an error value the caller receives but the abort of the call.
\<close>

datatype error = Err string | Wrap string error | Panic string

text \<open>
  The \<^verbatim>\<open>Embedder\<close> interface. Its implementations are external to the store; the store
  only calls these three methods.
\<close>

record Embedder =
  EmbedText :: "string \<Rightarrow> error + vector"
  EmbedTexts :: "string list \<Rightarrow> error + vector list"
  GetDimension :: int

text \<open>
  The operations a method performs on the store's \<^verbatim>\<open>sync.RWMutex\<close> and on the embedder,
  in program order. A method of the store returns this list beside its result, so that the
  position of the embedding call relative to the lock can be read off.
\<close>

datatype event = Lock | Unlock | RLock | RUnlock
  | CallEmbedTexts "string list" | CallEmbedText string | WriteMaps | ReadMaps



section \<open>The in-memory store\<close>

text \<open>
  \<^verbatim>\<open>MemoryRetriever\<close>: two Go maps keyed by document id, the embedder and the dimension
  read from it at construction. The mutex field is represented by the events above.
\<close>

record 'm MemoryRetriever =
  documents :: "string \<rightharpoonup> 'm Document"
  vectors :: "string \<rightharpoonup> vector"
  embedder :: Embedder
  dimension :: int

definition NewMemoryRetriever :: "Embedder option \<Rightarrow> error + 'm MemoryRetriever" where
  "NewMemoryRetriever e =
     (case e of
        None \<Rightarrow> Inl (Err ''embedder cannot be nil'')
      | Some emb \<Rightarrow>
          Inr \<lparr>documents = Map.empty, vectors = Map.empty, embedder = emb,
               dimension = GetDimension emb\<rparr>)"

text \<open>
  The storing loop of \<^verbatim>\<open>AddDocuments\<close>: for the \<open>i\<close>-th document it first writes
  \<^verbatim>\<open>m.documents[doc.ID]\<close> and then reads \<^verbatim>\<open>vectors[i]\<close>, which panics with an index out of
  range when the embedder returned fewer vectors than documents.
\<close>

fun storeLoop ::
  "'m Document list \<Rightarrow> vector list \<Rightarrow> nat \<Rightarrow> 'm MemoryRetriever \<Rightarrow> error option \<times> 'm MemoryRetriever" where
  "storeLoop [] vs i m = (None, m)"
| "storeLoop (d # rest) vs i m =
     (let m1 = m\<lparr>documents := (documents m)(Document.ID d \<mapsto> d)\<rparr>
      in if i < length vs
         then storeLoop rest vs (i + 1) (m1\<lparr>vectors := (vectors m1)(Document.ID d \<mapsto> vs ! i)\<rparr>)
         else (Some (Panic ''index out of range''), m1))"

text \<open>
  \<^verbatim>\<open>AddDocuments\<close> takes the write lock first (\<^verbatim>\<open>m.mu.Lock()\<close> with a deferred
  \<^verbatim>\<open>Unlock\<close>), then collects the contents, calls \<^verbatim>\<open>EmbedTexts\<close>, and stores. It returns the
  error (or \<open>None\<close> for \<^verbatim>\<open>nil\<close>), the store afterwards, and the events of the call.
\<close>

definition AddDocuments ::
  "'m Document list \<Rightarrow> 'm MemoryRetriever \<Rightarrow> (error option \<times> 'm MemoryRetriever) \<times> event list" where
  "AddDocuments ds m =
     (let texts = map Document.Content ds
      in case EmbedTexts (embedder m) texts of
           Inl err \<Rightarrow>
             ((Some (Wrap ''failed to embed documents'' err), m),
              [Lock, CallEmbedTexts texts, Unlock])
         | Inr vs \<Rightarrow>
             (storeLoop ds vs 0 m, [Lock, CallEmbedTexts texts, WriteMaps, Unlock]))"

definition DeleteDocument ::
  "string \<Rightarrow> 'm MemoryRetriever \<Rightarrow> (error option \<times> 'm MemoryRetriever) \<times> event list" where
  "DeleteDocument documentID m =
     ((None, m\<lparr>documents := (documents m)(documentID := None),
               vectors := (vectors m)(documentID := None)\<rparr>),
      [Lock, WriteMaps, Unlock])"

section \<open>Retrieval\<close>

record 'm scoreDoc =
  doc :: "'m Document"
  score :: real

text \<open>
  \<^verbatim>\<open>m.vectors[id]\<close>: a missing key reads as the zero value, the nil slice.
\<close>

definition lookupVector :: "'m MemoryRetriever \<Rightarrow> string \<Rightarrow> vector" where
  "lookupVector m k = (case vectors m k of None \<Rightarrow> [] | Some v \<Rightarrow> v)"

text \<open>
  The scoring loop ranges over the map \<^verbatim>\<open>m.documents\<close>. Go leaves the order of a map range
  unspecified, so the loop takes the order as an argument: the list of (key, value) pairs
  in the order this particular range yields them.
\<close>

fun scoreLoop ::
  "(string \<times> 'm Document) list \<Rightarrow> vector \<Rightarrow> 'm MemoryRetriever \<Rightarrow> 'm scoreDoc list \<Rightarrow> 'm scoreDoc list" where
  "scoreLoop [] queryVector m scores = scores"
| "scoreLoop ((k, d) # rest) queryVector m scores =
     scoreLoop rest queryVector m
       (scores @ [\<lparr>doc = d, score = cosineSimilarity queryVector (lookupVector m k)\<rparr>])"

text \<open>
  The sort of \<^verbatim>\<open>Retrieve\<close> is written out in the source as two nested loops that swap
  \<^verbatim>\<open>scores[i]\<close> and \<^verbatim>\<open>scores[j]\<close> whenever \<^verbatim>\<open>scores[i].score < scores[j].score\<close>.
\<close>

function sortInner :: "nat \<Rightarrow> nat \<Rightarrow> 'm scoreDoc list \<Rightarrow> 'm scoreDoc list" where
  "sortInner i j scores =
     (if j < length scores
      then sortInner i (j + 1)
             (if score (scores ! i) < score (scores ! j)
              then scores[i := scores ! j, j := scores ! i]
              else scores)
      else scores)"
  by pat_completeness auto
termination
  by (relation "measure (\<lambda>(i, j, scores). length scores - j)") auto

declare sortInner.simps [simp del]

lemma length_sortInner [simp]: "length (sortInner i j scores) = length scores"
proof (induction i j scores rule: sortInner.induct)
  case (1 i j scores)
  show ?case
    by (subst sortInner.simps) (use 1 in \<open>auto\<close>)
qed

function sortOuter :: "nat \<Rightarrow> 'm scoreDoc list \<Rightarrow> 'm scoreDoc list" where
  "sortOuter i scores =
     (if i + 1 < length scores
      then sortOuter (i + 1) (sortInner i (i + 1) scores)
      else scores)"
  by pat_completeness auto
termination
  by (relation "measure (\<lambda>(i, scores). length scores - i)") auto

declare sortOuter.simps [simp del]

lemma length_sortOuter [simp]: "length (sortOuter i scores) = length scores"
proof (induction i scores rule: sortOuter.induct)
  case (1 i scores)
  show ?case
    by (subst sortOuter.simps) (use 1 in \<open>auto\<close>)
qed



text \<open>
  \<^verbatim>\<open>Retrieve\<close> takes the read lock, embeds the query, scores every entry, sorts, caps
  \<^verbatim>\<open>topK\<close> at the number of scores and copies the first \<^verbatim>\<open>topK\<close> pairs into a slice made
  by \<^verbatim>\<open>make([]RetrievalResult, topK)\<close>, which panics when \<^verbatim>\<open>topK\<close> is negative.
\<close>

definition Retrieve ::
  "(string \<times> 'm Document) list \<Rightarrow> string \<Rightarrow> int \<Rightarrow> 'm MemoryRetriever
     \<Rightarrow> (error + 'm RetrievalResult list) \<times> event list" where
  "Retrieve entries query topK m =
     (case EmbedText (embedder m) query of
        Inl err \<Rightarrow>
          (Inl (Wrap ''failed to embed query'' err), [RLock, CallEmbedText query, RUnlock])
      | Inr queryVector \<Rightarrow>
          (let scores = sortOuter 0 (scoreLoop entries queryVector m []);
               topK' = (if topK > int (length scores) then int (length scores) else topK)
           in if topK' < 0 then Inl (Panic ''makeslice: len out of range'')
              else Inr (map (\<lambda>sd. \<lparr>Document = doc sd, Score = score sd\<rparr>)
                          (take (nat topK') scores)),
           [RLock, CallEmbedText query, ReadMaps, RUnlock]))"



text \<open>
  What one pass of the scoring loop appends for the entry \<open>e\<close>.
\<close>

definition scoreOf :: "'m MemoryRetriever \<Rightarrow> vector \<Rightarrow> string \<times> 'm Document \<Rightarrow> 'm scoreDoc" where
  "scoreOf m queryVector e = \<lparr>doc = snd e, score = cosineSimilarity queryVector (lookupVector m (fst e))\<rparr>"

section \<open>Sequences of store operations\<close>

text \<open>
  The two mutating methods as operations, and the store after a sequence of them. A failed
  \<^verbatim>\<open>AddDocuments\<close> leaves behind whatever store it returns.
\<close>

datatype 'm storeOp = OpAdd "'m Document list" | OpDelete string

fun applyOp :: "'m storeOp \<Rightarrow> 'm MemoryRetriever \<Rightarrow> 'm MemoryRetriever" where
  "applyOp (OpAdd ds) m = snd (fst (AddDocuments ds m))"
| "applyOp (OpDelete documentID) m = snd (fst (DeleteDocument documentID m))"

fun runOps :: "'m storeOp list \<Rightarrow> 'm MemoryRetriever \<Rightarrow> 'm MemoryRetriever" where
  "runOps [] m = m"
| "runOps (op # ops) m = runOps ops (applyOp op m)"

text \<open>
  The interface contract of \<^verbatim>\<open>EmbedTexts\<close>: a successful batch call returns exactly one
  vector per input text.
\<close>

definition onePerText :: "Embedder \<Rightarrow> bool" where
  "onePerText emb \<longleftrightarrow> (\<forall>texts vs. EmbedTexts emb texts = Inr vs \<longrightarrow> length vs = length texts)"

section \<open>Example data\<close>

text \<open>
  \<^verbatim>\<open>SimpleEmbedder.EmbedTexts\<close> embeds the texts one by one and gives up at the first
  error. The example embedder below uses it over a small table of texts; any other text
  fails the way a remote embedder does when its server cannot be reached.
\<close>

fun embedTextsLoop :: "(string \<Rightarrow> error + vector) \<Rightarrow> string list \<Rightarrow> error + vector list" where
  "embedTextsLoop f [] = Inr []"
| "embedTextsLoop f (t # ts) =
     (case f t of
        Inl err \<Rightarrow> Inl err
      | Inr vec \<Rightarrow>
          (case embedTextsLoop f ts of Inl err \<Rightarrow> Inl err | Inr vecs \<Rightarrow> Inr (vec # vecs)))"

definition exampleEmbedText :: "string \<Rightarrow> error + vector" where
  "exampleEmbedText t =
     (if t = ''x'' then Inr [1, 0]
      else if t = ''y'' then Inr [0, 1]
      else if t = ''xy'' then Inr [3, 4]
      else Inl (Err ''connection refused''))"

definition exampleEmbedder :: Embedder where
  "exampleEmbedder =
     \<lparr>EmbedText = exampleEmbedText, EmbedTexts = embedTextsLoop exampleEmbedText, GetDimension = 2\<rparr>"


definition docA :: "unit Document" where
  "docA = \<lparr>Document.ID = ''a'', Document.Content = ''x'', Metadata = ()\<rparr>"
definition docB :: "unit Document" where
  "docB = \<lparr>Document.ID = ''b'', Document.Content = ''x'', Metadata = ()\<rparr>"
definition docC :: "unit Document" where
  "docC = \<lparr>Document.ID = ''c'', Document.Content = ''y'', Metadata = ()\<rparr>"

definition emptyStore :: "unit MemoryRetriever" where
  "emptyStore = \<lparr>documents = Map.empty, vectors = Map.empty, embedder = exampleEmbedder, dimension = 2\<rparr>"


definition exampleStore :: "unit MemoryRetriever" where
  "exampleStore =
     \<lparr>documents = [''c'' \<mapsto> docC, ''b'' \<mapsto> docB, ''a'' \<mapsto> docA],
      vectors = [''c'' \<mapsto> [0, 1], ''b'' \<mapsto> [1, 0], ''a'' \<mapsto> [1, 0]],
      embedder = exampleEmbedder, dimension = 2\<rparr>"

definition exampleOps :: "unit storeOp list" where
  "exampleOps = [OpAdd [docC, docB], OpAdd [docA]]"

definition docB2 :: "unit Document" where
  "docB2 = \<lparr>Document.ID = ''b'', Document.Content = ''y'', Metadata = ()\<rparr>"

section \<open>The rankers\<close>

text \<open>
  Both rankers sort with the standard library's \<^verbatim>\<open>sort.Slice\<close>, which is not part of the
  repository. It is taken as a parameter \<open>sortSlice\<close>, applied to the comparison the
  closure computes and to the slice. What the library documents about it is the contract
  below: for a comparison that is a strict weak ordering the result is a permutation of
  the input in which no later element must sort before an earlier one. The library
  states that the sort is not stable.
\<close>

type_synonym sorter = "(RankedItem \<Rightarrow> RankedItem \<Rightarrow> bool) \<Rightarrow> RankedItem list \<Rightarrow> RankedItem list"

definition transitiveOrdering :: "('a \<Rightarrow> 'a \<Rightarrow> bool) \<Rightarrow> bool" where
  "transitiveOrdering lt \<longleftrightarrow>
     (\<forall>a. \<not> lt a a)
     \<and> (\<forall>a b c. lt a b \<and> lt b c \<longrightarrow> lt a c)
     \<and> (\<forall>a b c. \<not> lt a b \<and> \<not> lt b c \<longrightarrow> \<not> lt a c)"

definition sortSliceContract :: "sorter \<Rightarrow> bool" where
  "sortSliceContract sortSlice \<longleftrightarrow>
     (\<forall>lt xs. transitiveOrdering lt \<longrightarrow>
        mset (sortSlice lt xs) = mset xs
        \<and> sorted_wrt (\<lambda>a b. \<not> lt b a) (sortSlice lt xs))"

text \<open>
  The closure both rankers pass: \<^verbatim>\<open>result[i].Score > result[j].Score\<close>.
\<close>

definition byScoreDesc :: "RankedItem \<Rightarrow> RankedItem \<Rightarrow> bool" where
  "byScoreDesc a b \<longleftrightarrow> RankedItem.Score a > RankedItem.Score b"


record Reranker =
  scoreThreshold :: real

definition NewReranker :: "real \<Rightarrow> Reranker" where
  "NewReranker t = \<lparr>scoreThreshold = t\<rparr>"

text \<open>
  The first loop of \<^verbatim>\<open>Reranker.Rank\<close> appends every item whose score reaches the
  threshold.
\<close>

fun thresholdLoop :: "Reranker \<Rightarrow> RankedItem list \<Rightarrow> RankedItem list \<Rightarrow> RankedItem list" where
  "thresholdLoop r [] result = result"
| "thresholdLoop r (item # rest) result =
     thresholdLoop r rest
       (if RankedItem.Score item \<ge> scoreThreshold r then result @ [item] else result)"

text \<open>
  \<^verbatim>\<open>diversityFilter\<close> keeps a \<^verbatim>\<open>map[string]bool\<close> of the ids already seen; a missing key
  reads as \<^verbatim>\<open>false\<close>.
\<close>

definition lookupSeen :: "(string, bool) mapping \<Rightarrow> string \<Rightarrow> bool" where
  "lookupSeen seen k = (case Mapping.lookup seen k of None \<Rightarrow> False | Some b \<Rightarrow> b)"

fun dedupLoop :: "RankedItem list \<Rightarrow> RankedItem list \<Rightarrow> (string, bool) mapping \<Rightarrow> RankedItem list" where
  "dedupLoop [] filtered seen = filtered"
| "dedupLoop (item # rest) filtered seen =
     (if \<not> lookupSeen seen (RankedItem.ID item)
      then dedupLoop rest (filtered @ [item]) (Mapping.update (RankedItem.ID item) True seen)
      else dedupLoop rest filtered seen)"

definition diversityFilter :: "RankedItem list \<Rightarrow> RankedItem list" where
  "diversityFilter items =
     (if length items \<le> 1 then items else dedupLoop items [] Mapping.empty)"

definition Reranker_Rank :: "sorter \<Rightarrow> Reranker \<Rightarrow> RankedItem list \<Rightarrow> error + RankedItem list" where
  "Reranker_Rank sortSlice r items =
     (if length items = 0 then Inr items
      else Inr (diversityFilter (sortSlice byScoreDesc (thresholdLoop r items []))))"

text \<open>
  Two sorting functions that meet the contract, for the examples. \<open>insertionSort\<close> is an
  insertion sort: every element moves towards the front while it must sort before its left
  neighbour (the accumulator of the fold holds the sorted prefix back to front).
  \<open>reversingSort\<close> sorts as well but leaves elements that compare equal in the reverse of
  their input order.
\<close>

fun insertBack :: "('a \<Rightarrow> 'a \<Rightarrow> bool) \<Rightarrow> 'a \<Rightarrow> 'a list \<Rightarrow> 'a list" where
  "insertBack lt x [] = [x]"
| "insertBack lt x (y # ys) = (if lt x y then y # insertBack lt x ys else x # y # ys)"

definition insertionSort :: "('a \<Rightarrow> 'a \<Rightarrow> bool) \<Rightarrow> 'a list \<Rightarrow> 'a list" where
  "insertionSort lt xs = rev (foldl (\<lambda>acc x. insertBack lt x acc) [] xs)"


text \<open>
  The list of first occurrences: \<open>keepFirst seen xs\<close> drops every item whose id is in
  \<open>seen\<close> or occurred earlier in \<open>xs\<close>.
\<close>

fun keepFirst :: "(string, bool) mapping \<Rightarrow> RankedItem list \<Rightarrow> RankedItem list" where
  "keepFirst seen [] = []"
| "keepFirst seen (x # xs) =
     (if lookupSeen seen (RankedItem.ID x) then keepFirst seen xs
      else x # keepFirst (Mapping.update (RankedItem.ID x) True seen) xs)"

definition itemA :: RankedItem where "itemA = \<lparr>RankedItem.ID = ''a'', Score = 1\<rparr>"
definition itemB :: RankedItem where "itemB = \<lparr>RankedItem.ID = ''b'', Score = 2\<rparr>"
definition itemA3 :: RankedItem where "itemA3 = \<lparr>RankedItem.ID = ''a'', Score = 3\<rparr>"
definition itemD :: RankedItem where "itemD = \<lparr>RankedItem.ID = ''d'', Score = 0\<rparr>"

section \<open>The orchestrator\<close>

text \<open>
  \<^verbatim>\<open>llm.Message\<close> and the prompt template. \<^verbatim>\<open>strings.ReplaceAll\<close> is modelled on bytes:
  every non-overlapping occurrence of \<open>old\<close> from the left is replaced; an empty \<open>old\<close>
  matches before every byte and at the end (the library matches at UTF-8 boundaries; both
  calls in \<^verbatim>\<open>Build\<close> pass a non-empty constant).
\<close>

record Message =
  Role :: string
  Content :: string

record Template =
  SystemPrompt :: string
  UserPrompt :: string

function replaceAll :: "string \<Rightarrow> string \<Rightarrow> string \<Rightarrow> string" where
  "replaceAll s old new =
     (if old = [] then new @ concat (map (\<lambda>c. c # new) s)
      else if s = [] then []
      else if take (length old) s = old then new @ replaceAll (drop (length old) s) old new
      else hd s # replaceAll (tl s) old new)"
  by pat_completeness auto
termination
  by (relation "measure (\<lambda>(s, old, new). length s)") auto

declare replaceAll.simps [simp del]

definition Build :: "Template \<Rightarrow> string \<Rightarrow> string \<Rightarrow> string" where
  "Build template context query =
     (let userPrompt = replaceAll (UserPrompt template) ''{{context}}'' context;
          userPrompt = replaceAll userPrompt ''{{query}}'' query
      in ''System: '' @ SystemPrompt template @ [CHR 0x0A, CHR 0x0A] @ ''User: '' @ userPrompt)"

definition DefaultTemplate :: Template where
  "DefaultTemplate =
     \<lparr>SystemPrompt = ''You are a helpful assistant that answers questions based on the provided context.'',
      UserPrompt = ''Context: {{context}}'' @ [CHR 0x0A, CHR 0x0A] @ ''Question: {{query}}''
                   @ [CHR 0x0A, CHR 0x0A] @ ''Answer:''\<rparr>"

text \<open>
  \<^verbatim>\<open>strings.Join\<close>.
\<close>

fun join :: "string list \<Rightarrow> string \<Rightarrow> string" where
  "join [] sep = []"
| "join [x] sep = x"
| "join (x # y # rest) sep = x @ sep @ join (y # rest) sep"

text \<open>
  \<^verbatim>\<open>RAGService\<close> with the three services \<^verbatim>\<open>Query\<close> uses. The retriever service and the
  LLM service are pointers that may be nil; each wraps an interface value, represented by
  the one method \<^verbatim>\<open>Query\<close> calls on it (\<^verbatim>\<open>Retrieve\<close>, \<^verbatim>\<open>Generate\<close>).
\<close>

record 'm RAGService =
  retrieverService :: "(string \<Rightarrow> int \<Rightarrow> error + 'm RetrievalResult list) option"
  llmService :: "(Message list \<Rightarrow> error + string) option"
  promptService :: Template

text \<open>
  \<^verbatim>\<open>fmt.Errorf("...: %w", err)\<close> on an error value; a panic of the callee is not a value the
  caller wraps, it unwinds through \<^verbatim>\<open>Query\<close>.
\<close>

definition wrapError :: "string \<Rightarrow> error \<Rightarrow> error" where
  "wrapError msg err = (case err of Panic p \<Rightarrow> Panic p | _ \<Rightarrow> Wrap msg err)"

text \<open>
  \<^verbatim>\<open>Query\<close> returns its result and the list of message lists it passed to the generation
  backend, in call order; the list is empty exactly when the backend was not invoked.
\<close>

definition Query ::
  "'m RAGService \<Rightarrow> string \<Rightarrow> int \<Rightarrow> (error + string) \<times> Message list list" where
  "Query r query topK =
     (case retrieverService r of
        None \<Rightarrow> (Inl (Err ''retriever service is not initialized''), [])
      | Some retrieve \<Rightarrow>
     (case llmService r of
        None \<Rightarrow> (Inl (Err ''llm service is not initialized''), [])
      | Some generate \<Rightarrow>
     (case retrieve query topK of
        Inl err \<Rightarrow> (Inl (wrapError ''failed to retrieve documents'' err), [])
      | Inr results \<Rightarrow>
          if length results = 0 then (Inr ''No relevant documents found.'', [])
          else
            let contextParts = map (\<lambda>result. Document.Content (Document result)) results;
                context = join contextParts [CHR 0x0A, CHR 0x0A];
                promptText = Build (promptService r) context query;
                messages = [\<lparr>Role = ''user'', Content = promptText\<rparr>]
            in (case generate messages of
                  Inl err \<Rightarrow> (Inl (wrapError ''failed to generate answer'' err), [messages])
                | Inr answer \<Rightarrow> (Inr answer, [messages])))))"

definition exampleLLM :: "Message list \<Rightarrow> error + string" where
  "exampleLLM messages =
     (if length messages = 0 then Inl (Err ''no messages provided'') else Inr ''generated'')"

definition exampleService :: "unit MemoryRetriever \<Rightarrow> (string \<times> unit Document) list \<Rightarrow> unit RAGService" where
  "exampleService m entries =
     \<lparr>retrieverService = Some (\<lambda>query topK. fst (Retrieve entries query topK m)),
      llmService = Some exampleLLM,
      promptService = DefaultTemplate\<rparr>"


section \<open>Properties of cosine similarity\<close>








section \<open>The exchange sort of Retrieve\<close>










section \<open>Properties of Retrieve\<close>

lemma scoreLoop_map:
  "scoreLoop entries queryVector m scores = scores @ map (scoreOf m queryVector) entries"
  by (induction entries queryVector m scores rule: scoreLoop.induct) (simp_all add: scoreOf_def)





lemma Retrieve_ok:
  assumes "EmbedText (embedder m) query = Inr qv" "0 \<le> topK"
  shows "fst (Retrieve entries query topK m) =
     Inr (map (\<lambda>sd. \<lparr>Document = doc sd, Score = score sd\<rparr>)
            (take (nat topK) (sortOuter 0 (map (scoreOf m qv) entries))))"
  using assms by (auto simp: Retrieve_def Let_def scoreLoop_map)











section \<open>Properties of AddDocuments and of the locking\<close>

lemma NewMemoryRetriever_example: "NewMemoryRetriever (Some exampleEmbedder) = Inr emptyStore"
  by (simp add: NewMemoryRetriever_def emptyStore_def exampleEmbedder_def)

lemma runOps_example:
  "runOps [OpAdd [docC, docB], OpAdd [docA]] emptyStore = exampleStore"
  by (simp add: AddDocuments_def emptyStore_def exampleStore_def exampleEmbedder_def
      exampleEmbedText_def docA_def docB_def docC_def)

lemma storeLoop_result:
  "i + length ds \<le> length vs \<Longrightarrow>
   fst (storeLoop ds vs i m) = None
   \<and> dom (documents (snd (storeLoop ds vs i m))) = dom (documents m) \<union> set (map Document.ID ds)
   \<and> dom (vectors (snd (storeLoop ds vs i m))) = dom (vectors m) \<union> set (map Document.ID ds)
   \<and> embedder (snd (storeLoop ds vs i m)) = embedder m
   \<and> dimension (snd (storeLoop ds vs i m)) = dimension m"
proof (induction ds vs i m rule: storeLoop.induct)
  case (1 vs i m)
  then show ?case by simp
next
  case (2 d rest vs i m)
  let ?m1 = "m\<lparr>documents := (documents m)(Document.ID d \<mapsto> d)\<rparr>"
  let ?m2 = "?m1\<lparr>vectors := (vectors ?m1)(Document.ID d \<mapsto> vs ! i)\<rparr>"
  from "2.prems" have i: "i < length vs" and r: "i + 1 + length rest \<le> length vs" by simp_all
  have eq: "storeLoop (d # rest) vs i m = storeLoop rest vs (i + 1) ?m2"
    using i by (simp add: Let_def)
  from "2.IH"[OF refl i r] show ?case
    unfolding eq by auto
qed

lemma AddDocuments_embed_fail:
  "EmbedTexts (embedder m) (map Document.Content ds) = Inl err \<Longrightarrow>
   fst (AddDocuments ds m) = (Some (Wrap ''failed to embed documents'' err), m)"
  by (simp add: AddDocuments_def)

lemma AddDocuments_embed_ok:
  "EmbedTexts (embedder m) (map Document.Content ds) = Inr vs \<Longrightarrow>
   fst (AddDocuments ds m) = storeLoop ds vs 0 m"
  by (simp add: AddDocuments_def)






text \<open>
  With \<open>topK = 0\<close>, and on an empty store with a non-negative \<open>topK\<close>, \<open>Retrieve\<close>
  returns the empty list and no error.
\<close>

lemma Retrieve_zero_or_empty:
  assumes "EmbedText (embedder m) query = Inr qv"
    and "topK = 0 \<or> (entries = [] \<and> 0 \<le> topK)"
  shows "fst (Retrieve entries query topK m) = Inr []"
proof -
  from assms(2) have z: "0 \<le> topK" by auto
  have "length (sortOuter 0 (map (scoreOf m qv) [])) = 0" by simp
  then have "sortOuter 0 (map (scoreOf m qv) []) = []" by (simp only: length_0_conv)
  with assms(2) show ?thesis
    unfolding Retrieve_ok[OF assms(1) z] by auto
qed

text \<open>
  Claim C4 at a negative \<open>topK\<close>: the call does not return an empty list, it panics in
  \<^verbatim>\<open>make([]RetrievalResult, topK)\<close>, on the empty store and on a store with entries.
\<close>

theorem Retrieve_negative_topK:
  "fst (Retrieve [] ''x'' (- 1) emptyStore) = Inl (Panic ''makeslice: len out of range'')
   \<and> fst (Retrieve [(''c'', docC), (''b'', docB), (''a'', docA)] ''x'' (- 1) exampleStore)
       = Inl (Panic ''makeslice: len out of range'')"
  by (simp add: Retrieve_def Let_def emptyStore_def exampleStore_def exampleEmbedder_def
      exampleEmbedText_def)


section \<open>The key sets of the two maps\<close>

lemma AddDocuments_keeps:
  assumes "onePerText (embedder m)"
  shows "embedder (snd (fst (AddDocuments ds m))) = embedder m
       \<and> (dom (documents m) = dom (vectors m) \<longrightarrow>
            dom (documents (snd (fst (AddDocuments ds m)))) = dom (vectors (snd (fst (AddDocuments ds m)))))"
proof (cases "EmbedTexts (embedder m) (map Document.Content ds)")
  case (Inl err)
  then show ?thesis by (simp add: AddDocuments_embed_fail)
next
  case (Inr vs)
  with assms have "length vs = length ds" by (auto simp: onePerText_def)
  with storeLoop_result[of 0 ds vs m] AddDocuments_embed_ok[OF Inr] show ?thesis by simp
qed

lemma applyOp_keeps:
  assumes "onePerText (embedder m)" "dom (documents m) = dom (vectors m)"
  shows "embedder (applyOp op m) = embedder m
       \<and> dom (documents (applyOp op m)) = dom (vectors (applyOp op m))"
proof (cases op)
  case (OpAdd ds)
  with AddDocuments_keeps[OF assms(1), of ds] assms(2) show ?thesis by simp
next
  case (OpDelete k)
  with assms(2) show ?thesis by (simp add: DeleteDocument_def)
qed

lemma runOps_keeps:
  "onePerText (embedder m) \<Longrightarrow> dom (documents m) = dom (vectors m) \<Longrightarrow>
   embedder (runOps ops m) = embedder m
   \<and> dom (documents (runOps ops m)) = dom (vectors (runOps ops m))"
proof (induction ops arbitrary: m)
  case Nil
  then show ?case by simp
next
  case (Cons op ops)
  from applyOp_keeps[OF Cons.prems, of op]
  have e: "embedder (applyOp op m) = embedder m"
    and d: "dom (documents (applyOp op m)) = dom (vectors (applyOp op m))" by simp_all
  from Cons.prems(1) e have "onePerText (embedder (applyOp op m))" by simp
  from Cons.IH[OF this d] e show ?case by simp
qed

text \<open>
  Claim C10. Let the embedder return one vector per text, and let \<open>m0\<close> be the store
  \<open>NewMemoryRetriever\<close> builds. After any sequence of \<open>AddDocuments\<close> and \<open>DeleteDocument\<close>
  calls the documents map and the vectors map have the same keys, so every document that
  \<open>Retrieve\<close> scores has a stored vector; adding a document whose id is already present
  replaces both entries and leaves the number of entries unchanged.
\<close>

theorem store_keys_agree:
  assumes "onePerText emb" and "NewMemoryRetriever (Some emb) = Inr m0"
  shows "dom (documents (runOps ops m0)) = dom (vectors (runOps ops m0))
       \<and> (\<forall>k d. documents (runOps ops m0) k = Some d \<longrightarrow>
             (\<exists>v. vectors (runOps ops m0) k = Some v \<and> lookupVector (runOps ops m0) k = v))
       \<and> (\<forall>d v. Document.ID d \<in> dom (documents (runOps ops m0)) \<and> EmbedTexts emb [Document.Content d] = Inr [v] \<longrightarrow>
             documents (runOps (ops @ [OpAdd [d]]) m0) (Document.ID d) = Some d
           \<and> vectors (runOps (ops @ [OpAdd [d]]) m0) (Document.ID d) = Some v
           \<and> dom (documents (runOps (ops @ [OpAdd [d]]) m0)) = dom (documents (runOps ops m0))
           \<and> card (dom (documents (runOps (ops @ [OpAdd [d]]) m0))) = card (dom (documents (runOps ops m0))))"
proof -
  from assms(2) have m0: "embedder m0 = emb" "dom (documents m0) = dom (vectors m0)"
    by (auto simp: NewMemoryRetriever_def)
  let ?m = "runOps ops m0"
  from runOps_keeps[of m0 ops] m0 assms(1)
  have e: "embedder ?m = emb" and k: "dom (documents ?m) = dom (vectors ?m)" by simp_all
  have app: "runOps (ops @ [op]) s = applyOp op (runOps ops s)" for op and s :: "'a MemoryRetriever"
    by (induction ops arbitrary: s) simp_all
  have look: "\<exists>v. vectors ?m k' = Some v \<and> lookupVector ?m k' = v" if "documents ?m k' = Some d" for k' d
  proof -
    from that k have "k' \<in> dom (vectors ?m)" by auto
    then show ?thesis by (auto simp: lookupVector_def)
  qed
  have readd: "documents (runOps (ops @ [OpAdd [d]]) m0) (Document.ID d) = Some d
           \<and> vectors (runOps (ops @ [OpAdd [d]]) m0) (Document.ID d) = Some v
           \<and> dom (documents (runOps (ops @ [OpAdd [d]]) m0)) = dom (documents ?m)
           \<and> card (dom (documents (runOps (ops @ [OpAdd [d]]) m0))) = card (dom (documents ?m))"
    if "Document.ID d \<in> dom (documents ?m) \<and> EmbedTexts emb [Document.Content d] = Inr [v]" for d v
  proof -
    from that e have "fst (AddDocuments [d] ?m) = storeLoop [d] [v] 0 ?m"
      by (simp add: AddDocuments_embed_ok)
    then have "applyOp (OpAdd [d]) ?m =
        ?m\<lparr>documents := (documents ?m)(Document.ID d \<mapsto> d), vectors := (vectors ?m)(Document.ID d \<mapsto> v)\<rparr>"
      by (simp add: Let_def)
    moreover from that have "insert (Document.ID d) (dom (documents ?m)) = dom (documents ?m)"
      by auto
    ultimately show ?thesis by (simp add: app)
  qed
  from k look readd show ?thesis by blast
qed

lemma onePerText_loop: "embedTextsLoop f ts = Inr vs \<Longrightarrow> length vs = length ts"
  by (induction ts arbitrary: vs) (auto split: sum.splits)

lemma onePerText_example: "onePerText exampleEmbedder"
  by (auto simp: onePerText_def exampleEmbedder_def dest: onePerText_loop)

lemma runOps_exampleOps: "runOps exampleOps emptyStore = exampleStore"
  unfolding exampleOps_def by (rule runOps_example)

theorem store_keys_agree_witness:
  "onePerText exampleEmbedder \<and> NewMemoryRetriever (Some exampleEmbedder) = Inr emptyStore
   \<and> dom (documents (runOps exampleOps emptyStore)) = dom (vectors (runOps exampleOps emptyStore))
   \<and> Document.ID docB2 \<in> dom (documents (runOps exampleOps emptyStore))
   \<and> EmbedTexts exampleEmbedder [Document.Content docB2] = Inr [[0, 1]]
   \<and> documents (runOps (exampleOps @ [OpAdd [docB2]]) emptyStore) (Document.ID docB2) = Some docB2
   \<and> vectors (runOps (exampleOps @ [OpAdd [docB2]]) emptyStore) (Document.ID docB2) = Some [0, 1]
   \<and> card (dom (documents (runOps (exampleOps @ [OpAdd [docB2]]) emptyStore)))
       = card (dom (documents (runOps exampleOps emptyStore)))"
proof -
  note T = store_keys_agree[OF onePerText_example NewMemoryRetriever_example, of exampleOps]
  have i: "Document.ID docB2 \<in> dom (documents (runOps exampleOps emptyStore))"
    by (simp add: runOps_exampleOps docB2_def exampleStore_def)
  have v: "EmbedTexts exampleEmbedder [Document.Content docB2] = Inr [[0, 1]]"
    by (simp add: exampleEmbedder_def exampleEmbedText_def docB2_def)
  from T have k: "dom (documents (runOps exampleOps emptyStore)) = dom (vectors (runOps exampleOps emptyStore))"
    by (rule conjunct1)
  from T have "Document.ID docB2 \<in> dom (documents (runOps exampleOps emptyStore))
        \<and> EmbedTexts exampleEmbedder [Document.Content docB2] = Inr [[0, 1]] \<longrightarrow>
             documents (runOps (exampleOps @ [OpAdd [docB2]]) emptyStore) (Document.ID docB2) = Some docB2
           \<and> vectors (runOps (exampleOps @ [OpAdd [docB2]]) emptyStore) (Document.ID docB2) = Some [0, 1]
           \<and> dom (documents (runOps (exampleOps @ [OpAdd [docB2]]) emptyStore)) = dom (documents (runOps exampleOps emptyStore))
           \<and> card (dom (documents (runOps (exampleOps @ [OpAdd [docB2]]) emptyStore))) = card (dom (documents (runOps exampleOps emptyStore)))"
    by blast
  with i v k onePerText_example NewMemoryRetriever_example show ?thesis by blast
qed


section \<open>Sorting functions that meet the contract\<close>

lemma transitiveOrdering_byScoreDesc: "transitiveOrdering byScoreDesc"
  by (auto simp: transitiveOrdering_def byScoreDesc_def)


lemma transitiveOrdering_asym: "transitiveOrdering lt \<Longrightarrow> lt a b \<Longrightarrow> \<not> lt b a"
  unfolding transitiveOrdering_def by blast


lemma transitiveOrdering_negtrans:
  "transitiveOrdering lt \<Longrightarrow> \<not> lt a b \<Longrightarrow> \<not> lt b c \<Longrightarrow> \<not> lt a c"
  unfolding transitiveOrdering_def by blast




lemma mset_insertBack: "mset (insertBack lt x ys) = add_mset x (mset ys)"
  by (induction ys) auto


lemma set_insertBack: "set (insertBack lt x ys) = insert x (set ys)"
  by (induction ys) auto


lemma mset_foldl_insertBack:
  "mset (foldl (\<lambda>acc x. insertBack lt x acc) acc xs) = mset acc + mset xs"
  by (induction xs arbitrary: acc) (auto simp: mset_insertBack)


lemma mset_insertionSort: "mset (insertionSort lt xs) = mset xs"
  by (simp add: insertionSort_def mset_foldl_insertBack)

text \<open>The accumulator holds the sorted prefix back to front.\<close>



lemma sorted_insertBack:
  assumes "transitiveOrdering lt"
  shows "sorted_wrt (\<lambda>a b. \<not> lt a b) ys \<Longrightarrow> sorted_wrt (\<lambda>a b. \<not> lt a b) (insertBack lt x ys)"
proof (induction ys)
  case Nil
  then show ?case by simp
next
  case (Cons y ys)
  show ?case
  proof (cases "lt x y")
    case True
    have "\<not> lt y x"
      by (rule transitiveOrdering_asym[OF assms True])
    with Cons True show ?thesis
      by (auto simp: set_insertBack)
  next
    case False
    have "\<not> lt x z" if "z \<in> set ys" for z
    proof -
      from Cons.prems that have "\<not> lt y z" by simp
      with False show ?thesis by (rule transitiveOrdering_negtrans[OF assms])
    qed
    with False Cons.prems show ?thesis by auto
  qed
qed


lemma sorted_foldl_insertBack:
  assumes "transitiveOrdering lt"
  shows "sorted_wrt (\<lambda>a b. \<not> lt a b) acc \<Longrightarrow>
         sorted_wrt (\<lambda>a b. \<not> lt a b) (foldl (\<lambda>acc x. insertBack lt x acc) acc xs)"
  by (induction xs arbitrary: acc) (simp_all add: sorted_insertBack[OF assms])


lemma sorted_insertionSort:
  "transitiveOrdering lt \<Longrightarrow> sorted_wrt (\<lambda>a b. \<not> lt b a) (insertionSort lt xs)"
  using sorted_foldl_insertBack[of lt "[]" xs]
  by (simp add: insertionSort_def sorted_wrt_rev)


lemma sortSliceContract_insertionSort: "sortSliceContract insertionSort"
  by (simp add: sortSliceContract_def mset_insertionSort sorted_insertionSort)



section \<open>Properties of the rankers\<close>

lemma byScoreDesc_sorted:
  "sorted_wrt (\<lambda>a b. \<not> byScoreDesc b a) xs = sorted_wrt (\<lambda>a b. RankedItem.Score b \<le> RankedItem.Score a) xs"
  by (simp add: byScoreDesc_def not_less)

lemma sortSlice_byScoreDesc:
  assumes "sortSliceContract sortSlice"
  shows "mset (sortSlice byScoreDesc xs) = mset xs"
    and "sorted_wrt (\<lambda>a b. RankedItem.Score b \<le> RankedItem.Score a) (sortSlice byScoreDesc xs)"
proof -
  from assms transitiveOrdering_byScoreDesc
  have "mset (sortSlice byScoreDesc xs) = mset xs
      \<and> sorted_wrt (\<lambda>a b. \<not> byScoreDesc b a) (sortSlice byScoreDesc xs)"
    unfolding sortSliceContract_def by blast
  then show "mset (sortSlice byScoreDesc xs) = mset xs"
    and "sorted_wrt (\<lambda>a b. RankedItem.Score b \<le> RankedItem.Score a) (sortSlice byScoreDesc xs)"
    by (simp_all add: byScoreDesc_sorted)
qed





lemma thresholdLoop_filter:
  "thresholdLoop r items result = result @ filter (\<lambda>x. scoreThreshold r \<le> RankedItem.Score x) items"
  by (induction r items result rule: thresholdLoop.induct) simp_all

lemma dedupLoop_keepFirst: "dedupLoop items filtered seen = filtered @ keepFirst seen items"
proof (induction items arbitrary: filtered seen)
  case Nil
  show ?case by simp
next
  case (Cons item rest)
  show ?case
  proof (cases "lookupSeen seen (RankedItem.ID item)")
    case True
    then show ?thesis by (simp add: Cons.IH)
  next
    case False
    then show ?thesis by (simp add: Cons.IH)
  qed
qed

lemma diversityFilter_keepFirst: "diversityFilter items = keepFirst Mapping.empty items"
proof (cases items)
  case Nil
  then show ?thesis by (simp add: diversityFilter_def)
next
  case (Cons x xs)
  then show ?thesis
    by (cases xs) (simp_all add: diversityFilter_def dedupLoop_keepFirst lookupSeen_def lookup_update' lookup_empty)
qed

lemma set_keepFirst: "set (keepFirst seen xs) \<subseteq> set xs"
proof (induction xs arbitrary: seen)
  case Nil
  show ?case by simp
next
  case (Cons x xs)
  from Cons.IH[of seen] Cons.IH[of "Mapping.update (RankedItem.ID x) True seen"]
  show ?case by (cases "lookupSeen seen (RankedItem.ID x)") auto
qed

lemma keepFirst_not_seen: "x \<in> set (keepFirst seen xs) \<Longrightarrow> \<not> lookupSeen seen (RankedItem.ID x)"
proof (induction xs arbitrary: seen)
  case Nil
  then show ?case by simp
next
  case (Cons y ys)
  show ?case
  proof (cases "lookupSeen seen (RankedItem.ID y)")
    case True
    with Cons.prems have "x \<in> set (keepFirst seen ys)" by simp
    then show ?thesis by (rule Cons.IH)
  next
    case False
    show ?thesis
    proof (cases "x = y")
      case True
      with False show ?thesis by simp
    next
      case xy: False
      with False Cons.prems have "x \<in> set (keepFirst (Mapping.update (RankedItem.ID y) True seen) ys)" by simp
      then have "\<not> lookupSeen (Mapping.update (RankedItem.ID y) True seen) (RankedItem.ID x)" by (rule Cons.IH)
      then show ?thesis by (simp add: lookupSeen_def lookup_update' lookup_empty split: if_splits)
    qed
  qed
qed

lemma distinct_keepFirst: "distinct (map RankedItem.ID (keepFirst seen xs))"
proof (induction seen xs rule: keepFirst.induct)
  case (1 seen)
  then show ?case by simp
next
  case (2 seen x xs)
  show ?case
  proof (cases "lookupSeen seen (RankedItem.ID x)")
    case True
    with 2 show ?thesis by simp
  next
    case False
    have "RankedItem.ID x \<notin> RankedItem.ID ` set (keepFirst (Mapping.update (RankedItem.ID x) True seen) xs)"
    proof
      assume "RankedItem.ID x \<in> RankedItem.ID ` set (keepFirst (Mapping.update (RankedItem.ID x) True seen) xs)"
      then obtain z where z: "z \<in> set (keepFirst (Mapping.update (RankedItem.ID x) True seen) xs)"
        and e: "RankedItem.ID z = RankedItem.ID x" by auto
      from keepFirst_not_seen[OF z] e show False
        by (simp add: lookupSeen_def lookup_update')
    qed
    with False 2 show ?thesis by simp
  qed
qed

lemma sorted_keepFirst: "sorted_wrt R xs \<Longrightarrow> sorted_wrt R (keepFirst seen xs)"
proof (induction seen xs rule: keepFirst.induct)
  case (1 seen)
  then show ?case by simp
next
  case (2 seen x xs)
  from "2.prems" have "\<forall>y\<in>set (keepFirst (Mapping.update (RankedItem.ID x) True seen) xs). R x y"
    using set_keepFirst[of "Mapping.update (RankedItem.ID x) True seen" xs] by auto
  with 2 show ?case by simp
qed

lemma ids_keepFirst:
  "RankedItem.ID ` set (keepFirst seen xs) = {k \<in> RankedItem.ID ` set xs. \<not> lookupSeen seen k}"
proof (induction seen xs rule: keepFirst.induct)
  case (1 seen)
  then show ?case by simp
next
  case (2 seen x xs)
  show ?case
  proof (cases "lookupSeen seen (RankedItem.ID x)")
    case True
    with 2 show ?thesis by auto
  next
    case False
    with "2.IH"(2) show ?thesis by (auto simp: lookupSeen_def lookup_update' lookup_empty)
  qed
qed

lemma find_keepFirst:
  "x \<in> set (keepFirst seen xs) \<Longrightarrow> find (\<lambda>y. RankedItem.ID y = RankedItem.ID x) xs = Some x"
proof (induction seen xs rule: keepFirst.induct)
  case (1 seen)
  then show ?case by simp
next
  case (2 seen y ys)
  show ?case
  proof (cases "lookupSeen seen (RankedItem.ID y)")
    case True
    with "2.prems" have m: "x \<in> set (keepFirst seen ys)" by simp
    then have "\<not> lookupSeen seen (RankedItem.ID x)" by (rule keepFirst_not_seen)
    with True have "RankedItem.ID y \<noteq> RankedItem.ID x" by auto
    with "2.IH"(1)[OF True m] show ?thesis by simp
  next
    case False
    show ?thesis
    proof (cases "x = y")
      case True
      then show ?thesis by simp
    next
      case xy: False
      with False "2.prems" have m: "x \<in> set (keepFirst (Mapping.update (RankedItem.ID y) True seen) ys)" by simp
      then have "\<not> lookupSeen (Mapping.update (RankedItem.ID y) True seen) (RankedItem.ID x)" by (rule keepFirst_not_seen)
      then have "RankedItem.ID y \<noteq> RankedItem.ID x" by (auto simp: lookupSeen_def lookup_update' lookup_empty)
      with "2.IH"(2)[OF False m] show ?thesis by simp
    qed
  qed
qed

text \<open>
  Claim C6. Whatever sorting function meeting the contract of \<^verbatim>\<open>sort.Slice\<close> is used, the
  output of the threshold ranker has no item below the threshold and no two items with the
  same id, it is sorted by non-increasing score, and it consists of the first occurrence
  of every id in \<open>ranked\<close>, the score-sorted list of the items that reach the threshold.
\<close>

theorem Reranker_Rank_threshold_dedup:
  assumes "sortSliceContract sortSlice"
  shows "\<exists>ranked out.
      Reranker_Rank sortSlice r items = Inr out
    \<and> mset ranked = mset (filter (\<lambda>x. scoreThreshold r \<le> RankedItem.Score x) items)
    \<and> sorted_wrt (\<lambda>a b. RankedItem.Score b \<le> RankedItem.Score a) ranked
    \<and> (\<forall>x\<in>set out. scoreThreshold r \<le> RankedItem.Score x)
    \<and> distinct (map RankedItem.ID out)
    \<and> RankedItem.ID ` set out = RankedItem.ID ` set ranked
    \<and> (\<forall>x\<in>set out. find (\<lambda>y. RankedItem.ID y = RankedItem.ID x) ranked = Some x)
    \<and> sorted_wrt (\<lambda>a b. RankedItem.Score b \<le> RankedItem.Score a) out"
proof -
  let ?kept = "filter (\<lambda>x. scoreThreshold r \<le> RankedItem.Score x) items"
  let ?ranked = "sortSlice byScoreDesc ?kept"
  let ?out = "keepFirst Mapping.empty ?ranked"
  have ms: "mset ?ranked = mset ?kept"
    by (rule sortSlice_byScoreDesc(1)[OF assms])
  have srt: "sorted_wrt (\<lambda>a b. RankedItem.Score b \<le> RankedItem.Score a) ?ranked"
    by (rule sortSlice_byScoreDesc(2)[OF assms])
  have empty: "?ranked = []" if "items = []"
    using ms that by simp
  have res: "Reranker_Rank sortSlice r items = Inr ?out"
  proof (cases "items = []")
    case True
    with empty show ?thesis by (simp add: Reranker_Rank_def)
  next
    case False
    then show ?thesis
      by (simp add: Reranker_Rank_def thresholdLoop_filter diversityFilter_keepFirst)
  qed
  have "set ?ranked = set ?kept"
    using ms by (metis set_mset_mset)
  with set_keepFirst[of Mapping.empty ?ranked]
  have th: "\<forall>x\<in>set ?out. scoreThreshold r \<le> RankedItem.Score x" by auto
  have ids: "RankedItem.ID ` set ?out = RankedItem.ID ` set ?ranked"
    by (simp add: ids_keepFirst lookupSeen_def lookup_update' lookup_empty)
  have fnd: "\<forall>x\<in>set ?out. find (\<lambda>y. RankedItem.ID y = RankedItem.ID x) ?ranked = Some x"
    using find_keepFirst by blast
  from res ms srt th distinct_keepFirst[of Mapping.empty ?ranked] ids fnd
    sorted_keepFirst[OF srt, of Mapping.empty]
  show ?thesis by blast
qed

theorem Reranker_Rank_threshold_dedup_witness:
  "sortSliceContract insertionSort
   \<and> Reranker_Rank insertionSort (NewReranker 1) [itemA, itemB, itemD, itemA3] = Inr [itemA3, itemB]
   \<and> (\<exists>ranked out.
      Reranker_Rank insertionSort (NewReranker 1) [itemA, itemB, itemD, itemA3] = Inr out
    \<and> mset ranked = mset (filter (\<lambda>x. scoreThreshold (NewReranker 1) \<le> RankedItem.Score x) [itemA, itemB, itemD, itemA3])
    \<and> sorted_wrt (\<lambda>a b. RankedItem.Score b \<le> RankedItem.Score a) ranked
    \<and> (\<forall>x\<in>set out. scoreThreshold (NewReranker 1) \<le> RankedItem.Score x)
    \<and> distinct (map RankedItem.ID out)
    \<and> RankedItem.ID ` set out = RankedItem.ID ` set ranked
    \<and> (\<forall>x\<in>set out. find (\<lambda>y. RankedItem.ID y = RankedItem.ID x) ranked = Some x)
    \<and> sorted_wrt (\<lambda>a b. RankedItem.Score b \<le> RankedItem.Score a) out)"
proof -
  have t: "thresholdLoop (NewReranker 1) [itemA, itemB, itemD, itemA3] [] = [itemA, itemB, itemA3]"
    by (simp add: NewReranker_def itemA_def itemB_def itemD_def itemA3_def)
  have s: "insertionSort byScoreDesc [itemA, itemB, itemA3] = [itemA3, itemB, itemA]"
    by (simp add: insertionSort_def byScoreDesc_def itemA_def itemB_def itemA3_def)
  have d: "diversityFilter [itemA3, itemB, itemA] = [itemA3, itemB]"
    by (simp add: diversityFilter_def lookupSeen_def lookup_update' lookup_empty itemA_def itemB_def itemA3_def)
  have "Reranker_Rank insertionSort (NewReranker 1) [itemA, itemB, itemD, itemA3] = Inr [itemA3, itemB]"
    by (simp add: Reranker_Rank_def t s d del: thresholdLoop.simps)
  with Reranker_Rank_threshold_dedup[OF sortSliceContract_insertionSort,
      of "NewReranker 1" "[itemA, itemB, itemD, itemA3]"] sortSliceContract_insertionSort
  show ?thesis by blast
qed


section \<open>Properties of Query\<close>

text \<open>
  With a non-empty retrieval result the backend is called once, with one user message.
\<close>

lemma Query_generates:
  assumes "retrieverService r = Some retrieve" and "llmService r = Some generate"
    and "retrieve query topK = Inr results" and "results \<noteq> []"
  shows "snd (Query r query topK) =
     [[\<lparr>Role = ''user'',
        Content = Build (promptService r)
          (join (map (\<lambda>result. Document.Content (Document result)) results) [CHR 0x0A, CHR 0x0A]) query\<rparr>]]"
  using assms by (simp add: Query_def Let_def split: sum.splits)

text \<open>
  Claim C8. When both services are set and the retrieval returns an empty list, \<open>Query\<close>
  returns exactly the text \<^verbatim>\<open>No relevant documents found.\<close> with no error, and it has not
  called the generation backend.
\<close>

theorem Query_no_documents:
  assumes "retrieverService r = Some retrieve" and "llmService r = Some generate"
    and "retrieve query topK = Inr []"
  shows "Query r query topK = (Inr ''No relevant documents found.'', [])"
  using assms by (simp add: Query_def)

theorem Query_no_documents_witness:
  "retrieverService (exampleService emptyStore []) = Some (\<lambda>query topK. fst (Retrieve [] query topK emptyStore))
   \<and> llmService (exampleService emptyStore []) = Some exampleLLM
   \<and> fst (Retrieve [] ''x'' 5 emptyStore) = Inr []
   \<and> Query (exampleService emptyStore []) ''x'' 5 = (Inr ''No relevant documents found.'', [])"
proof -
  have r: "retrieverService (exampleService emptyStore []) = Some (\<lambda>query topK. fst (Retrieve [] query topK emptyStore))"
    by (simp add: exampleService_def)
  have l: "llmService (exampleService emptyStore []) = Some exampleLLM"
    by (simp add: exampleService_def)
  have e: "fst (Retrieve [] ''x'' 5 emptyStore) = Inr []"
    by (simp add: Retrieve_def Let_def emptyStore_def exampleEmbedder_def exampleEmbedText_def
        sortOuter.simps)
  from Query_no_documents[OF r l, of "''x''" 5] r l e show ?thesis by simp
qed

end
